theory Spec2Isabelle
  imports Main "HOL-Library.Multiset"
begin

section \<open>Go types, as package reflect shows them\<close>

text \<open>
  A \<open>reflect.Type\<close> descriptor. Two descriptors are equal exactly when the Go types are
  identical: a defined (named) type differs from its underlying type and from every other
  defined type. \<open>TNamed name underlying methods\<close> is a defined type with the names of its
  declared methods; \<open>TFunc params results variadic\<close> is a function type.
\<close>

datatype gotype =
    TBool
  | TInt
  | TString
  | TNamed string gotype "string list"
  | TPtr gotype
  | TSlice gotype
  | TStruct "(string \<times> gotype) list"
  | TFunc "gotype list" "gotype list" bool
  | TInterface "string list"

text \<open>\<open>reflect.Kind\<close>; \<open>KInvalid\<close> is the kind of the zero \<open>reflect.Value\<close>.\<close>

datatype kind = KInvalid | KBool | KInt | KString | KPtr | KSlice | KStruct | KFunc | KInterface

fun underlying :: "gotype \<Rightarrow> gotype" where
  "underlying (TNamed n u ms) = underlying u"
| "underlying t = t"

fun kindOf :: "gotype \<Rightarrow> kind" where
  "kindOf TBool = KBool"
| "kindOf TInt = KInt"
| "kindOf TString = KString"
| "kindOf (TNamed n u ms) = kindOf u"
| "kindOf (TPtr t) = KPtr"
| "kindOf (TSlice t) = KSlice"
| "kindOf (TStruct fs) = KStruct"
| "kindOf (TFunc ps rs v) = KFunc"
| "kindOf (TInterface ms) = KInterface"

text \<open>
  The accessors of a function type. On a type of another kind Go panics; \<open>Inject\<close> reaches
  them only behind its \<open>Kind\<close> check, and here they answer as for a function type without
  parameters and results.
\<close>

fun params :: "gotype \<Rightarrow> gotype list" where
  "params (TFunc ps rs v) = ps"
| "params (TNamed n u ms) = params u"
| "params t = []"

fun returns :: "gotype \<Rightarrow> gotype list" where
  "returns (TFunc ps rs v) = rs"
| "returns (TNamed n u ms) = returns u"
| "returns t = []"

fun IsVariadic :: "gotype \<Rightarrow> bool" where
  "IsVariadic (TFunc ps rs v) = v"
| "IsVariadic (TNamed n u ms) = IsVariadic u"
| "IsVariadic t = False"

definition NumIn :: "gotype \<Rightarrow> nat" where
  "NumIn t = length (params t)"

definition In :: "gotype \<Rightarrow> nat \<Rightarrow> gotype" where
  "In t i = params t ! i"

definition NumOut :: "gotype \<Rightarrow> nat" where
  "NumOut t = length (returns t)"

definition Out :: "gotype \<Rightarrow> nat \<Rightarrow> gotype" where
  "Out t i = returns t ! i"

fun Elem :: "gotype \<Rightarrow> gotype" where
  "Elem (TSlice e) = e"
| "Elem (TPtr e) = e"
| "Elem (TNamed n u ms) = Elem u"
| "Elem t = t"

text \<open>
  The predeclared interface type \<open>error\<close>: what \<open>reflect.TypeOf(&err).Elem()\<close> yields for
  \<open>var err error\<close>.
\<close>

definition errorType :: gotype where
  "errorType = TNamed ''error'' (TInterface [''Error'']) []"

text \<open>Method sets (by method name) and Go's assignability, as \<open>reflect.Type.AssignableTo\<close>.\<close>

fun methodSet :: "gotype \<Rightarrow> string set" where
  "methodSet (TNamed n u ms) = set ms \<union> (case u of TInterface is \<Rightarrow> set is | _ \<Rightarrow> {})"
| "methodSet (TInterface is) = set is"
| "methodSet (TPtr (TNamed n u ms)) = (case u of TInterface is \<Rightarrow> {} | _ \<Rightarrow> set ms)"
| "methodSet t = {}"

fun isNamed :: "gotype \<Rightarrow> bool" where
  "isNamed (TNamed n u ms) = True"
| "isNamed TBool = True"
| "isNamed TInt = True"
| "isNamed TString = True"
| "isNamed t = False"

definition implements :: "gotype \<Rightarrow> gotype \<Rightarrow> bool" where
  "implements V T = (case underlying T of TInterface is \<Rightarrow> set is \<subseteq> methodSet V | _ \<Rightarrow> False)"

definition AssignableTo :: "gotype \<Rightarrow> gotype \<Rightarrow> bool" where
  "AssignableTo V T =
     (V = T \<or> (underlying V = underlying T \<and> (\<not> isNamed V \<or> \<not> isNamed T)) \<or> implements V T)"

section \<open>Values\<close>

text \<open>
  A Go value of type \<open>interface{}\<close>: \<open>VNil\<close> is the nil interface, every other value carries
  its dynamic type. A function value is a code pointer (a key of the code table below) or
  the nil function of its type.
\<close>

datatype goval =
    VNil
  | VBool gotype bool
  | VInt gotype int
  | VString gotype string
  | VPtr gotype nat
  | VSlice gotype "goval list"
  | VStruct gotype "goval list"
  | VFunc gotype "nat option"

text \<open>
  A \<open>reflect.Value\<close>: the zero Value, or a Value holding a content. \<open>Holds VNil\<close> is a
  Value of interface type holding nil, as a function result of type \<open>error\<close> can be.
\<close>

datatype rvalue = ZeroValue | Holds goval

fun TypeOf :: "goval \<Rightarrow> gotype option" where
  "TypeOf VNil = None"
| "TypeOf (VBool t b) = Some t"
| "TypeOf (VInt t i) = Some t"
| "TypeOf (VString t s) = Some t"
| "TypeOf (VPtr t a) = Some t"
| "TypeOf (VSlice t xs) = Some t"
| "TypeOf (VStruct t xs) = Some t"
| "TypeOf (VFunc t f) = Some t"

fun ValueOf :: "goval \<Rightarrow> rvalue" where
  "ValueOf VNil = ZeroValue"
| "ValueOf v = Holds v"

fun Kind :: "rvalue \<Rightarrow> kind" where
  "Kind ZeroValue = KInvalid"
| "Kind (Holds v) = (case TypeOf v of None \<Rightarrow> KInterface | Some t \<Rightarrow> kindOf t)"

section \<open>Errors, panics and outcomes\<close>

text \<open>
  The errors of the package, one constructor for each message, carrying the arguments the
  message is formatted from. \<open>Wrap cause msg\<close> is \<open>errors.Wrap(cause, msg)\<close>.
\<close>

datatype err =
    DuplicateType goval goval
  | NotCallable kind goval
  | TooManyReturns goval
  | InvalidSecondReturn gotype goval
  | NoReturnValue goval
  | MissingDependency gotype goval
  | Wrap goval string

fun Cause :: "err \<Rightarrow> goval option" where
  "Cause (Wrap c m) = Some c"
| "Cause e = None"

text \<open>
  The run-time panics that the package, reflect or the called function can raise:
  \<open>Interface\<close> called on the zero Value; a method called on the nil Type; \<open>Call\<close> on a
  nil function, with too few or too many arguments, with a zero Value argument, or with
  an argument (at the given position) that is not assignable to its parameter; an index
  out of range; a panic of the called function itself; and the panic of \<open>Must\<close>.
\<close>

datatype panic =
    ZeroValueInterface
  | NilTypeDeref
  | CallNilFunc
  | CallTooFewArgs
  | CallTooManyArgs
  | CallZeroArg
  | CallBadArg nat
  | IndexOutOfRange
  | CalleePanic
  | MustPanic err

datatype 'a outcome = Return 'a | Panic panic

fun Interface :: "rvalue \<Rightarrow> goval outcome" where
  "Interface ZeroValue = Panic ZeroValueInterface"
| "Interface (Holds v) = Return v"

section \<open>The registry\<close>

text \<open>\<open>type needle map[reflect.Type]reflect.Value\<close>; the key \<open>None\<close> is the nil Type.\<close>

type_synonym needle = "gotype option \<rightharpoonup> rvalue"

text \<open>The loop of \<open>New\<close> over \<open>args\<close>, with the map built so far.\<close>

fun New_loop :: "needle \<Rightarrow> goval list \<Rightarrow> (needle option \<times> err option) outcome" where
  "New_loop n [] = Return (Some n, None)"
| "New_loop n (v # args) =
     (let typ = TypeOf v; val = ValueOf v in
      case n typ of
        Some old \<Rightarrow>
          (case Interface old of
             Panic p \<Rightarrow> Panic p
           | Return oi \<Rightarrow>
               (case Interface val of
                  Panic p \<Rightarrow> Panic p
                | Return vi \<Rightarrow> Return (None, Some (DuplicateType oi vi))))
      | None \<Rightarrow> New_loop (n(typ \<mapsto> val)) args)"

definition New :: "goval list \<Rightarrow> (needle option \<times> err option) outcome" where
  "New args = New_loop Map.empty args"

definition Must :: "goval \<Rightarrow> err option \<Rightarrow> goval outcome" where
  "Must i e = (case e of Some x \<Rightarrow> Panic (MustPanic x) | None \<Rightarrow> Return i)"

section \<open>Calling a function value\<close>

text \<open>
  The code table: what the function behind a code pointer does with its arguments in a
  world \<open>'w\<close> (everything the function can read and write). \<open>None\<close> is a panic of the
  function's own.
\<close>

type_synonym 'w code = "nat \<Rightarrow> goval list \<Rightarrow> 'w \<Rightarrow> goval list option \<times> 'w"

fun held :: "rvalue \<Rightarrow> goval" where
  "held ZeroValue = VNil"
| "held (Holds v) = v"

fun assignable :: "rvalue \<Rightarrow> gotype \<Rightarrow> bool" where
  "assignable ZeroValue T = False"
| "assignable (Holds v) T =
     (case TypeOf v of None \<Rightarrow> kindOf T = KInterface | Some V \<Rightarrow> AssignableTo V T)"

definition run :: "'w code \<Rightarrow> nat \<Rightarrow> rvalue list \<Rightarrow> 'w \<Rightarrow> rvalue list outcome \<times> 'w" where
  "run code f args w =
     (case code f (map held args) w of
        (None, w') \<Rightarrow> (Panic CalleePanic, w')
      | (Some rs, w') \<Rightarrow> (Return (map Holds rs), w'))"

text \<open>
  \<open>reflect.Value.Call\<close>: the nil function, the argument count, zero Values and
  assignability are checked in this order; for a variadic function the arguments past
  the fixed ones are packed into a fresh slice.
\<close>

definition Call :: "'w code \<Rightarrow> rvalue \<Rightarrow> rvalue list \<Rightarrow> 'w \<Rightarrow> rvalue list outcome \<times> 'w" where
  "Call code v args w =
     (case v of
        Holds (VFunc t (Some f)) \<Rightarrow>
          (let n = (if IsVariadic t then NumIn t - 1 else NumIn t) in
           if length args < n then (Panic CallTooFewArgs, w)
           else if \<not> IsVariadic t \<and> length args > n then (Panic CallTooManyArgs, w)
           else if list_ex (\<lambda>x. Kind x = KInvalid) args then (Panic CallZeroArg, w)
           else case find (\<lambda>i. \<not> assignable (args ! i) (In t i)) [0..<n] of
             Some i \<Rightarrow> (Panic (CallBadArg i), w)
           | None \<Rightarrow>
               if IsVariadic t then
                 (case find (\<lambda>i. \<not> assignable (args ! i) (Elem (In t n))) [n..<length args] of
                    Some i \<Rightarrow> (Panic (CallBadArg i), w)
                  | None \<Rightarrow>
                      run code f
                        (take n args @ [Holds (VSlice (In t n) (map held (drop n args)))]) w)
               else run code f args w)
      | _ \<Rightarrow> (Panic CallNilFunc, w))"

section \<open>Inject\<close>

text \<open>
  The program state: the registry behind the Injector and the world of the injected
  functions. \<open>Inject\<close> takes the state and returns it with its outcome.
\<close>

record 'w state =
  registry :: needle
  world :: 'w

text \<open>The loop that builds the arguments, over the parameter types left to resolve.\<close>

fun build_args :: "needle \<Rightarrow> goval \<Rightarrow> gotype list \<Rightarrow> err + rvalue list" where
  "build_args n fn [] = Inr []"
| "build_args n fn (t # ts) =
     (case n (Some t) of
        None \<Rightarrow> Inl (MissingDependency t fn)
      | Some arg \<Rightarrow>
          (case build_args n fn ts of
             Inl e \<Rightarrow> Inl e
           | Inr args \<Rightarrow> Inr (arg # args)))"

text \<open>The end of \<open>Inject\<close>: the optional error is extracted and the first result returned.\<close>

definition extract_results :: "rvalue list \<Rightarrow> (goval \<times> err option) outcome" where
  "extract_results results =
     (case (if length results = 2 then
              (case Interface (results ! 1) of
                 Panic p \<Rightarrow> Panic p
               | Return i \<Rightarrow>
                   Return (if i \<noteq> VNil then Some (Wrap i ''cannot inject'') else None))
            else Return None) of
        Panic p \<Rightarrow> Panic p
      | Return e \<Rightarrow>
          (case results of
             [] \<Rightarrow> Panic IndexOutOfRange
           | r # rs \<Rightarrow> (case Interface r of Panic p \<Rightarrow> Panic p | Return i \<Rightarrow> Return (i, e))))"

definition Inject ::
  "'w code \<Rightarrow> goval \<Rightarrow> 'w state \<Rightarrow> (goval \<times> err option) outcome \<times> 'w state" where
  "Inject code fn s =
     (let val = ValueOf fn in
      if Kind val \<noteq> KFunc then (Return (VNil, Some (NotCallable (Kind val) fn)), s)
      else case TypeOf fn of
        None \<Rightarrow> (Panic NilTypeDeref, s)
      | Some typ \<Rightarrow>
          if NumOut typ > 2 then (Return (VNil, Some (TooManyReturns fn)), s)
          else if NumOut typ = 2 \<and> Out typ 1 \<noteq> errorType then
            (Return (VNil, Some (InvalidSecondReturn (Out typ 1) fn)), s)
          else if NumOut typ < 1 then (Return (VNil, Some (NoReturnValue fn)), s)
          else case build_args (registry s) fn (params typ) of
            Inl e \<Rightarrow> (Return (VNil, Some e), s)
          | Inr args \<Rightarrow>
              (case Call code val args (world s) of
                 (Panic p, w') \<Rightarrow> (Panic p, s\<lparr>world := w'\<rparr>)
               | (Return results, w') \<Rightarrow> (extract_results results, s\<lparr>world := w'\<rparr>)))"

section \<open>The validation order of the specification\<close>

text \<open>
  The specification's words, to be compared with \<open>Inject\<close>: the argument must be a
  callable; then the return arity must be 1 or 2 (0 and more than 2 have an error each);
  then, at arity 2, the second return type must be \<open>error\<close>. The first failure is the
  answer, \<open>None\<close> says that validation passes.
\<close>

definition validate_spec :: "goval \<Rightarrow> err option" where
  "validate_spec fn =
     (if Kind (ValueOf fn) \<noteq> KFunc then Some (NotCallable (Kind (ValueOf fn)) fn)
      else case TypeOf fn of
        None \<Rightarrow> None
      | Some typ \<Rightarrow>
          if NumOut typ = 0 then Some (NoReturnValue fn)
          else if NumOut typ > 2 then Some (TooManyReturns fn)
          else if NumOut typ = 2 \<and> Out typ 1 \<noteq> errorType then
            Some (InvalidSecondReturn (Out typ 1) fn)
          else None)"

section \<open>The scenarios of the specification\<close>

text \<open>
  The named integer types \<open>A\<close> and \<open>B\<close> of the example scenarios, a struct type with an
  \<open>Error\<close> method, and a code table whose world counts the calls made:
  0 is \<open>func(s string) string\<close> (\<open>"a"+s+"b"\<close>), 1 is \<open>func(a A, b B) int\<close> and 2 is
  \<open>func(b B, a A) int\<close> (both \<open>a - b\<close>), 3 is \<open>func() (string, error)\<close> with a nil
  error, 4 the same with an error, 5 is \<open>func() string\<close>.
\<close>

definition typeA :: gotype where
  "typeA = TNamed ''A'' TInt []"

definition typeB :: gotype where
  "typeB = TNamed ''B'' TInt []"

definition typeMyErr :: gotype where
  "typeMyErr = TNamed ''MyErr'' (TStruct [(''msg'', TString)]) [''Error'']"

definition boom :: goval where
  "boom = VStruct typeMyErr [VString TString ''boom'']"

definition demo_code :: "nat code" where
  "demo_code f args w =
     (if f = 0 then
        (case args of [VString t s] \<Rightarrow> (Some [VString TString (''a'' @ s @ ''b'')], Suc w)
         | _ \<Rightarrow> (None, w))
      else if f = 1 then
        (case args of [VInt ta a, VInt tb b] \<Rightarrow> (Some [VInt TInt (a - b)], Suc w)
         | _ \<Rightarrow> (None, w))
      else if f = 2 then
        (case args of [VInt tb b, VInt ta a] \<Rightarrow> (Some [VInt TInt (a - b)], Suc w)
         | _ \<Rightarrow> (None, w))
      else if f = 3 then
        (case args of [] \<Rightarrow> (Some [VString TString ''ok'', VNil], Suc w) | _ \<Rightarrow> (None, w))
      else if f = 4 then
        (case args of [] \<Rightarrow> (Some [VString TString ''partial'', boom], Suc w)
         | _ \<Rightarrow> (None, w))
      else if f = 5 then
        (case args of [] \<Rightarrow> (Some [VString TString ''hi''], Suc w) | _ \<Rightarrow> (None, w))
      else (None, w))"

text \<open>The registries of the scenarios, as \<open>New\<close> builds them, and the injected functions.\<close>

definition regA :: needle where
  "regA = [Some typeA \<mapsto> Holds (VInt typeA 0)]"

definition regAB :: needle where
  "regAB = [Some typeA \<mapsto> Holds (VInt typeA 0), Some typeB \<mapsto> Holds (VInt typeB 1)]"

definition regABfoo :: needle where
  "regABfoo = [Some typeA \<mapsto> Holds (VInt typeA 0), Some typeB \<mapsto> Holds (VInt typeB 1),
     Some TString \<mapsto> Holds (VString TString ''foo'')]"

definition fn_wrap :: goval where
  "fn_wrap = VFunc (TFunc [TString] [TString] False) (Some 0)"

definition fn_ab :: goval where
  "fn_ab = VFunc (TFunc [typeA, typeB] [TInt] False) (Some 1)"

definition fn_ba :: goval where
  "fn_ba = VFunc (TFunc [typeB, typeA] [TInt] False) (Some 2)"

definition fn_ok :: goval where
  "fn_ok = VFunc (TFunc [] [TString, errorType] False) (Some 3)"

definition fn_fail :: goval where
  "fn_fail = VFunc (TFunc [] [TString, errorType] False) (Some 4)"

definition fn_hi :: goval where
  "fn_hi = VFunc (TFunc [] [TString] False) (Some 5)"

section \<open>Lemmas on the registry\<close>

lemma TypeOf_None_iff: "TypeOf v = None \<longleftrightarrow> v = VNil"
  by (cases v) simp_all

lemma ValueOf_not_nil: "v \<noteq> VNil \<Longrightarrow> ValueOf v = Holds v"
  by (cases v) simp_all


lemma New_loop_distinct:
  "distinct (map TypeOf args) \<Longrightarrow> \<forall>v\<in>set args. n (TypeOf v) = None \<Longrightarrow>
   New_loop n args = Return (Some (n ++ map_of (map (\<lambda>v. (TypeOf v, ValueOf v)) args)), None)"
proof (induction args arbitrary: n)
  case Nil
  then show ?case by simp
next
  case (Cons v args)
  have fresh: "n (TypeOf v) = None" using Cons.prems(2) by simp
  have d: "distinct (map TypeOf args)" and notin: "TypeOf v \<notin> TypeOf ` set args"
    using Cons.prems(1) by auto
  have "\<forall>x\<in>set args. (n(TypeOf v \<mapsto> ValueOf v)) (TypeOf x) = None"
  proof
    fix x assume x: "x \<in> set args"
    then have "TypeOf x \<noteq> TypeOf v" using notin by (metis imageI)
    then show "(n(TypeOf v \<mapsto> ValueOf v)) (TypeOf x) = None"
      using Cons.prems(2) x by simp
  qed
  from Cons.IH [OF d this]
  have step: "New_loop (n(TypeOf v \<mapsto> ValueOf v)) args =
     Return (Some (n(TypeOf v \<mapsto> ValueOf v) ++ map_of (map (\<lambda>v. (TypeOf v, ValueOf v)) args)), None)" .
  have nd: "TypeOf v \<notin> dom (map_of (map (\<lambda>v. (TypeOf v, ValueOf v)) args))"
    using notin by (simp add: dom_map_of_conv_image_fst image_image)
  define m where "m = map_of (map (\<lambda>v. (TypeOf v, ValueOf v)) args)"
  have "n(TypeOf v \<mapsto> ValueOf v) ++ m = (n ++ m)(TypeOf v \<mapsto> ValueOf v)"
    using nd unfolding m_def by (rule map_add_upd_left)
  also have "\<dots> = n ++ m(TypeOf v \<mapsto> ValueOf v)"
    by (rule map_add_upd [symmetric])
  also have "m(TypeOf v \<mapsto> ValueOf v) = map_of (map (\<lambda>v. (TypeOf v, ValueOf v)) (v # args))"
    unfolding m_def by simp
  finally have "n(TypeOf v \<mapsto> ValueOf v) ++ map_of (map (\<lambda>v. (TypeOf v, ValueOf v)) args)
      = n ++ map_of (map (\<lambda>v. (TypeOf v, ValueOf v)) (v # args))"
    unfolding m_def .
  with step fresh show ?case by (simp add: Let_def del: map_of.simps list.map)
qed

lemma New_distinct:
  "distinct (map TypeOf args) \<Longrightarrow>
   New args = Return (Some (map_of (map (\<lambda>v. (TypeOf v, ValueOf v)) args)), None)"
  using New_loop_distinct [of args Map.empty] by (simp add: New_def)



lemma returns_kind: "returns t \<noteq> [] \<Longrightarrow> kindOf t = KFunc"
  by (induction t rule: returns.induct) simp_all


lemma Kind_ValueOf: "TypeOf v = Some T \<Longrightarrow> Kind (ValueOf v) = kindOf T"
  by (cases v) simp_all



lemma Inject_after_validation:
  assumes "TypeOf fn = Some typ" "kindOf typ = KFunc"
    "NumOut typ = 1 \<or> (NumOut typ = 2 \<and> Out typ 1 = errorType)"
  shows "Inject code fn s =
     (case build_args (registry s) fn (params typ) of
        Inl e \<Rightarrow> (Return (VNil, Some e), s)
      | Inr args \<Rightarrow>
          (case Call code (ValueOf fn) args (world s) of
             (Panic p, w') \<Rightarrow> (Panic p, s\<lparr>world := w'\<rparr>)
           | (Return results, w') \<Rightarrow> (extract_results results, s\<lparr>world := w'\<rparr>)))"
  using assms by (auto simp: Inject_def Kind_ValueOf)

lemma build_args_missing:
  "\<forall>p\<in>set ps. n (Some p) \<noteq> None \<Longrightarrow> n (Some t) = None \<Longrightarrow>
   build_args n fn (ps @ t # ts) = Inl (MissingDependency t fn)"
  by (induction ps) auto

lemma build_args_Inr:
  "build_args n fn ts = Inr args \<Longrightarrow> map Some args = map (\<lambda>t. n (Some t)) ts"
  by (induction ts arbitrary: args) (auto split: option.splits sum.splits)

lemma build_args_resolved:
  "map Some args = map (\<lambda>t. n (Some t)) ts \<Longrightarrow> build_args n fn ts = Inr args"
proof (induction ts arbitrary: args)
  case Nil
  then show ?case by simp
next
  case (Cons t ts)
  then obtain a as where args: "args = a # as" by (cases args) auto
  with Cons.prems have "n (Some t) = Some a" "map Some as = map (\<lambda>t. n (Some t)) ts"
    by auto
  with Cons.IH [of as] args show ?case by simp
qed



lemma New_loop_success:
  "New_loop n args = Return (Some m, None) \<Longrightarrow>
   distinct (map TypeOf args) \<and> (\<forall>v\<in>set args. n (TypeOf v) = None)"
proof (induction args arbitrary: n)
  case Nil
  then show ?case by simp
next
  case (Cons v args)
  show ?case
  proof (cases "n (TypeOf v)")
    case None
    with Cons.prems have "New_loop (n(TypeOf v \<mapsto> ValueOf v)) args = Return (Some m, None)"
      by (simp add: Let_def)
    from Cons.IH [OF this]
    have d: "distinct (map TypeOf args)"
      and f: "\<forall>x\<in>set args. (n(TypeOf v \<mapsto> ValueOf v)) (TypeOf x) = None" by auto
    have "TypeOf v \<notin> TypeOf ` set args"
    proof
      assume "TypeOf v \<in> TypeOf ` set args"
      then obtain x where "x \<in> set args" "TypeOf x = TypeOf v" by auto
      with f show False by auto
    qed
    moreover have "\<forall>x\<in>set args. n (TypeOf x) = None"
    proof
      fix x assume "x \<in> set args"
      with f have "(n(TypeOf v \<mapsto> ValueOf v)) (TypeOf x) = None" by blast
      then show "n (TypeOf x) = None" by (simp split: if_splits)
    qed
    ultimately show ?thesis using d None by simp
  next
    case (Some old)
    with Cons.prems show ?thesis
      by (auto simp: Let_def split: outcome.splits)
  qed
qed

lemma New_success_distinct: "New args = Return (Some m, None) \<Longrightarrow> distinct (map TypeOf args)"
  using New_loop_success [of Map.empty args m] by (simp add: New_def)

lemma New_perm:
  assumes "New args = Return (Some n, None)" "mset args' = mset args"
  shows "New args' = Return (Some n, None)"
proof -
  let ?f = "\<lambda>v. (TypeOf v, ValueOf v)"
  have d: "distinct (map TypeOf args)" using assms(1) by (rule New_success_distinct)
  have "mset (map TypeOf args') = mset (map TypeOf args)"
    using assms(2) by (metis mset_map)
  then have d': "distinct (map TypeOf args')" using d by (metis mset_eq_imp_distinct_iff)
  have n: "n = map_of (map ?f args)" using New_distinct [OF d] assms(1) by simp
  have "set (map ?f args') = set (map ?f args)"
    using assms(2) by (metis mset_eq_setD set_map)
  moreover have "distinct (map fst (map ?f args'))" "distinct (map fst (map ?f args))"
    using d d' by (simp_all add: comp_def)
  ultimately have "map_of (map ?f args') = map_of (map ?f args)"
    by (simp only: map_of_inject_set)
  with New_distinct [OF d'] n show ?thesis by simp
qed

lemma New_loop_duplicate:
  assumes "distinct (map TypeOf (xs @ old # ys))" "\<forall>x\<in>set (xs @ old # ys). n (TypeOf x) = None"
    "TypeOf v = TypeOf old" "v \<noteq> VNil"
  shows "New_loop n (xs @ old # ys @ v # zs) = Return (None, Some (DuplicateType old v))"
  using assms
proof (induction xs arbitrary: n)
  case Nil
  have step: "\<And>m. m (TypeOf old) = Some (ValueOf old) \<Longrightarrow> TypeOf old \<notin> TypeOf ` set ys \<Longrightarrow>
      \<forall>x\<in>set ys. m (TypeOf x) = None \<Longrightarrow> distinct (map TypeOf ys) \<Longrightarrow>
      New_loop m (ys @ v # zs) = Return (None, Some (DuplicateType old v))"
  proof -
    fix m
    show "m (TypeOf old) = Some (ValueOf old) \<Longrightarrow> TypeOf old \<notin> TypeOf ` set ys \<Longrightarrow>
      \<forall>x\<in>set ys. m (TypeOf x) = None \<Longrightarrow> distinct (map TypeOf ys) \<Longrightarrow>
      New_loop m (ys @ v # zs) = Return (None, Some (DuplicateType old v))"
    proof (induction ys arbitrary: m)
      case Nil
      have "TypeOf v \<noteq> None" using assms(4) by (simp add: TypeOf_None_iff)
      then have "TypeOf old \<noteq> None" using assms(3) by simp
      then have "old \<noteq> VNil" by (simp add: TypeOf_None_iff)
      then have "ValueOf old = Holds old" "ValueOf v = Holds v"
        using assms(4) by (simp_all add: ValueOf_not_nil)
      with Nil assms(3) show ?case by (simp add: Let_def)
    next
      case (Cons y ys)
      have ne: "TypeOf y \<noteq> TypeOf old" using Cons.prems(2) by auto
      have "New_loop (m(TypeOf y \<mapsto> ValueOf y)) (ys @ v # zs)
          = Return (None, Some (DuplicateType old v))"
      proof (rule Cons.IH)
        show "(m(TypeOf y \<mapsto> ValueOf y)) (TypeOf old) = Some (ValueOf old)"
          using Cons.prems(1) ne by simp
        show "TypeOf old \<notin> TypeOf ` set ys" using Cons.prems(2) by auto
        show "\<forall>x\<in>set ys. (m(TypeOf y \<mapsto> ValueOf y)) (TypeOf x) = None"
          using Cons.prems(3,4) by (auto simp: image_iff)
        show "distinct (map TypeOf ys)" using Cons.prems(4) by simp
      qed
      moreover have "m (TypeOf y) = None" using Cons.prems(3) by simp
      ultimately show ?case by (simp add: Let_def)
    qed
  qed
  have "New_loop (n(TypeOf old \<mapsto> ValueOf old)) (ys @ v # zs)
      = Return (None, Some (DuplicateType old v))"
  proof (rule step)
    show "(n(TypeOf old \<mapsto> ValueOf old)) (TypeOf old) = Some (ValueOf old)" by simp
    show "TypeOf old \<notin> TypeOf ` set ys" using Nil.prems(1) by auto
    show "\<forall>x\<in>set ys. (n(TypeOf old \<mapsto> ValueOf old)) (TypeOf x) = None"
      using Nil.prems(1,2) by (auto simp: image_iff)
    show "distinct (map TypeOf ys)" using Nil.prems(1) by simp
  qed
  moreover have "n (TypeOf old) = None" using Nil.prems(2) by simp
  ultimately show ?case by (simp add: Let_def)
next
  case (Cons x xs)
  have "New_loop (n(TypeOf x \<mapsto> ValueOf x)) (xs @ old # ys @ v # zs)
      = Return (None, Some (DuplicateType old v))"
  proof (rule Cons.IH)
    show "distinct (map TypeOf (xs @ old # ys))" using Cons.prems(1) by simp
    show "\<forall>a\<in>set (xs @ old # ys). (n(TypeOf x \<mapsto> ValueOf x)) (TypeOf a) = None"
      using Cons.prems(1,2) by (auto simp: image_iff)
    show "TypeOf v = TypeOf old" by (rule Cons.prems(3))
    show "v \<noteq> VNil" by (rule Cons.prems(4))
  qed
  moreover have "n (TypeOf x) = None" using Cons.prems(2) by simp
  ultimately show ?case by (simp add: Let_def)
qed

section \<open>Lemmas on validation, resolution and the call\<close>

lemma build_args_Inl:
  "build_args n fn ts = Inl e \<Longrightarrow> \<exists>t\<in>set ts. e = MissingDependency t fn"
  by (induction ts) (auto split: option.splits sum.splits)

lemma extract_results_error:
  "extract_results rs = Return (r, Some e) \<Longrightarrow> \<exists>c. e = Wrap c ''cannot inject''"
  by (auto simp: extract_results_def split: if_splits outcome.splits list.splits)

lemma validate_spec_None:
  assumes "validate_spec fn = None"
  shows "\<exists>typ. TypeOf fn = Some typ \<and> kindOf typ = KFunc \<and>
           (NumOut typ = 1 \<or> (NumOut typ = 2 \<and> Out typ 1 = errorType))"
proof (cases "TypeOf fn")
  case None
  then have "fn = VNil" by (simp add: TypeOf_None_iff)
  with assms show ?thesis by (simp add: validate_spec_def)
next
  case (Some ty)
  with assms have k: "kindOf ty = KFunc"
    by (simp add: validate_spec_def Kind_ValueOf split: if_splits)
  with assms Some have "NumOut ty \<noteq> 0" "\<not> NumOut ty > 2"
      "\<not> (NumOut ty = 2 \<and> Out ty 1 \<noteq> errorType)"
    by (simp_all add: validate_spec_def Kind_ValueOf split: if_splits)
  then have "NumOut ty = 1 \<or> (NumOut ty = 2 \<and> Out ty 1 = errorType)" by arith
  with Some k show ?thesis by simp
qed

lemma validate_spec_Some:
  assumes "validate_spec fn = Some e"
  shows "Inject code fn s = (Return (VNil, Some e), s)"
proof (cases "Kind (ValueOf fn) = KFunc")
  case False
  with assms show ?thesis by (simp add: validate_spec_def Inject_def)
next
  case True
  then have "fn \<noteq> VNil" by auto
  then obtain ty where t: "TypeOf fn = Some ty" by (cases fn) auto
  with True assms show ?thesis
    by (auto simp: validate_spec_def Inject_def split: if_splits)
qed




lemma build_args_nth:
  assumes "build_args n fn ts = Inr as"
  shows "length as = length ts" and "\<forall>i<length ts. n (Some (ts ! i)) = Some (as ! i)"
proof -
  have m: "map Some as = map (\<lambda>t. n (Some t)) ts" using assms by (rule build_args_Inr)
  then show l: "length as = length ts" by (metis length_map)
  show "\<forall>i<length ts. n (Some (ts ! i)) = Some (as ! i)"
  proof (intro allI impI)
    fix i assume i: "i < length ts"
    then have "map Some as ! i = map (\<lambda>t. n (Some t)) ts ! i" using m by simp
    with i l show "n (Some (ts ! i)) = Some (as ! i)" by simp
  qed
qed

lemma New_duplicate_typed:
  assumes "distinct (map TypeOf (xs @ old # ys))" "TypeOf v = TypeOf old" "v \<noteq> VNil"
  shows "New (xs @ old # ys @ v # zs) = Return (None, Some (DuplicateType old v))"
  unfolding New_def using assms by (intro New_loop_duplicate) simp_all

lemma New_loop_no_panic:
  "VNil \<notin> set args \<Longrightarrow> \<forall>k. n k \<noteq> Some ZeroValue \<Longrightarrow> New_loop n args \<noteq> Panic p"
proof (induction args arbitrary: n)
  case Nil
  then show ?case by simp
next
  case (Cons v args)
  have v: "ValueOf v = Holds v" using Cons.prems(1) by (intro ValueOf_not_nil) auto
  show ?case
  proof (cases "n (TypeOf v)")
    case None
    have "\<forall>k. (n(TypeOf v \<mapsto> Holds v)) k \<noteq> Some ZeroValue"
      using Cons.prems(2) by simp
    moreover have "VNil \<notin> set args" using Cons.prems(1) by simp
    ultimately have "New_loop (n(TypeOf v \<mapsto> Holds v)) args \<noteq> Panic p"
      by (intro Cons.IH)
    with None v show ?thesis by (simp add: Let_def)
  next
    case (Some old)
    with Cons.prems(2) have "old \<noteq> ZeroValue" by metis
    then obtain oi where "old = Holds oi" by (cases old) auto
    with Some v show ?thesis by (simp add: Let_def)
  qed
qed

lemma New_typed_no_panic: "VNil \<notin> set args \<Longrightarrow> New args \<noteq> Panic p"
  unfolding New_def by (rule New_loop_no_panic) simp_all

lemma Must_panics_iff: "Must i e = Panic p \<longleftrightarrow> (\<exists>x. e = Some x \<and> p = MustPanic x)"
  by (auto simp: Must_def split: option.splits)

section \<open>Evaluation of the scenarios\<close>

lemmas demo_defs = typeA_def typeB_def typeMyErr_def boom_def demo_code_def regA_def regAB_def
  regABfoo_def fn_wrap_def fn_ab_def fn_ba_def fn_ok_def fn_fail_def fn_hi_def

lemmas run_defs = Inject_def Call_def run_def extract_results_def NumIn_def In_def NumOut_def
  Out_def errorType_def AssignableTo_def Let_def

lemma New_regA: "New [VInt typeA 0] = Return (Some regA, None)"
  by (simp add: New_def demo_defs)

lemma New_regAB: "New [VInt typeA 0, VInt typeB 1] = Return (Some regAB, None)"
  by (simp add: New_def demo_defs)


section \<open>The claims\<close>



text \<open>
  C2. For every sequence of values containing two values with the same type identity,
  \<open>New\<close> fails with a DuplicateTypeError that identifies both values, at the first conflict
  from the left. The code does so for typed values (\<open>New_loop_duplicate\<close> above), but
  not when the first conflict is between two nil interface values: both have the nil Type
  as their key, the duplicate branch is entered, and \<open>old.Interface()\<close> on the zero Value
  panics before the error is built. The sequence below also holds two values of type
  \<open>int\<close>; \<open>New\<close> panics instead of reporting any duplicate.
\<close>

theorem New_duplicate_behind_nils_panics:
  "New [VNil, VNil, VInt TInt 1, VInt TInt 2] = Panic ZeroValueInterface"
  by (simp add: New_def)

text \<open>
  C3. For every function value that passes validation and has a parameter type absent from
  the registry, \<open>Inject\<close> returns the nil result with the error naming the first such
  parameter type from the left and the function, and the state is unchanged whatever the
  code table is: the function is not called.
\<close>

theorem Inject_missing_dependency:
  assumes "TypeOf fn = Some typ" "kindOf typ = KFunc"
    "NumOut typ = 1 \<or> (NumOut typ = 2 \<and> Out typ 1 = errorType)"
    "\<exists>t\<in>set (params typ). registry s (Some t) = None"
  shows "\<exists>ps t ts. params typ = ps @ t # ts \<and> (\<forall>p\<in>set ps. registry s (Some p) \<noteq> None) \<and>
           registry s (Some t) = None \<and>
           Inject code fn s = (Return (VNil, Some (MissingDependency t fn)), s)"
proof -
  from assms(4) obtain ps t ts where sp: "params typ = ps @ t # ts"
      "registry s (Some t) = None" "\<forall>p\<in>set ps. registry s (Some p) \<noteq> None"
    using split_list_first_prop [of "params typ" "\<lambda>t. registry s (Some t) = None"] by blast
  have "build_args (registry s) fn (params typ) = Inl (MissingDependency t fn)"
    unfolding sp(1) using sp(3,2) by (rule build_args_missing)
  with Inject_after_validation [OF assms(1-3), of code s]
  have "Inject code fn s = (Return (VNil, Some (MissingDependency t fn)), s)" by simp
  with sp show ?thesis by blast
qed

theorem Inject_missing_dependency_witness:
  "New [VInt typeA 0] = Return (Some regA, None) \<and>
   Inject demo_code (VFunc (TFunc [TInt] [TString] False) (Some 0)) \<lparr>registry = regA, world = 0\<rparr> =
     (Return (VNil, Some (MissingDependency TInt (VFunc (TFunc [TInt] [TString] False) (Some 0)))),
      \<lparr>registry = regA, world = 0\<rparr>)"
proof -
  let ?fn = "VFunc (TFunc [TInt] [TString] False) (Some 0)"
  let ?s = "\<lparr>registry = regA, world = 0::nat\<rparr>"
  have "\<exists>ps t ts. params (TFunc [TInt] [TString] False) = ps @ t # ts \<and>
           (\<forall>p\<in>set ps. registry ?s (Some p) \<noteq> None) \<and> registry ?s (Some t) = None \<and>
           Inject demo_code ?fn ?s = (Return (VNil, Some (MissingDependency t ?fn)), ?s)"
    by (rule Inject_missing_dependency) (simp_all add: NumOut_def regA_def typeA_def)
  then have "Inject demo_code ?fn ?s = (Return (VNil, Some (MissingDependency TInt ?fn)), ?s)"
    by (auto simp: Cons_eq_append_conv)
  then show ?thesis by (simp add: New_regA)
qed

text \<open>
  C4. When all arguments resolve and the call returns: at return arity 1 \<open>Inject\<close> returns
  the single result and no error; at arity 2 with a nil second result it returns the first
  result and no error; with a non-nil second result it returns the first result together
  with that error wrapped as \<open>cannot inject\<close>, whose cause is the original error.
\<close>

theorem Inject_result_normalised:
  assumes "TypeOf fn = Some typ" "kindOf typ = KFunc"
    "build_args (registry s) fn (params typ) = Inr args"
    "Call code (ValueOf fn) args (world s) = (Return results, w')"
  shows "(NumOut typ = 1 \<and> results = [Holds r] \<longrightarrow>
            Inject code fn s = (Return (r, None), s\<lparr>world := w'\<rparr>)) \<and>
         (NumOut typ = 2 \<and> Out typ 1 = errorType \<and> results = [Holds r, Holds VNil] \<longrightarrow>
            Inject code fn s = (Return (r, None), s\<lparr>world := w'\<rparr>)) \<and>
         (NumOut typ = 2 \<and> Out typ 1 = errorType \<and> results = [Holds r, Holds e] \<and> e \<noteq> VNil \<longrightarrow>
            Inject code fn s = (Return (r, Some (Wrap e ''cannot inject'')), s\<lparr>world := w'\<rparr>) \<and>
            Cause (Wrap e ''cannot inject'') = Some e)"
proof (intro conjI impI)
  assume a: "NumOut typ = 1 \<and> results = [Holds r]"
  then have "NumOut typ = 1 \<or> (NumOut typ = 2 \<and> Out typ 1 = errorType)" by simp
  from Inject_after_validation [OF assms(1,2) this, of code s] assms(3,4) a
  show "Inject code fn s = (Return (r, None), s\<lparr>world := w'\<rparr>)"
    by (simp add: extract_results_def)
next
  assume a: "NumOut typ = 2 \<and> Out typ 1 = errorType \<and> results = [Holds r, Holds VNil]"
  then have "NumOut typ = 1 \<or> (NumOut typ = 2 \<and> Out typ 1 = errorType)" by simp
  from Inject_after_validation [OF assms(1,2) this, of code s] assms(3,4) a
  show "Inject code fn s = (Return (r, None), s\<lparr>world := w'\<rparr>)"
    by (simp add: extract_results_def)
next
  assume a: "NumOut typ = 2 \<and> Out typ 1 = errorType \<and> results = [Holds r, Holds e] \<and> e \<noteq> VNil"
  then have "NumOut typ = 1 \<or> (NumOut typ = 2 \<and> Out typ 1 = errorType)" by simp
  from Inject_after_validation [OF assms(1,2) this, of code s] assms(3,4) a
  show "Inject code fn s = (Return (r, Some (Wrap e ''cannot inject'')), s\<lparr>world := w'\<rparr>)"
    by (simp add: extract_results_def)
next
  show "Cause (Wrap e ''cannot inject'') = Some e" by simp
qed

theorem Inject_result_normalised_witness:
  "Inject demo_code fn_wrap \<lparr>registry = regABfoo, world = 0\<rparr> =
     (Return (VString TString ''afoob'', None), \<lparr>registry = regABfoo, world = 1\<rparr>) \<and>
   Inject demo_code fn_ok \<lparr>registry = regAB, world = 0\<rparr> =
     (Return (VString TString ''ok'', None), \<lparr>registry = regAB, world = 1\<rparr>) \<and>
   Inject demo_code fn_fail \<lparr>registry = regAB, world = 0\<rparr> =
     (Return (VString TString ''partial'', Some (Wrap boom ''cannot inject'')),
      \<lparr>registry = regAB, world = 1\<rparr>) \<and>
   Cause (Wrap boom ''cannot inject'') = Some boom \<and> boom \<noteq> VNil"
proof -
  have 1: "Inject demo_code fn_wrap \<lparr>registry = regABfoo, world = 0\<rparr> =
     (Return (VString TString ''afoob'', None), \<lparr>registry = regABfoo, world = 1\<rparr>)"
    using Inject_result_normalised [of fn_wrap "TFunc [TString] [TString] False"
        "\<lparr>registry = regABfoo, world = 0\<rparr>" "[Holds (VString TString ''foo'')]" demo_code
        "[Holds (VString TString ''afoob'')]" 1 "VString TString ''afoob''"]
    by (simp add: demo_defs run_defs)
  have 2: "Inject demo_code fn_ok \<lparr>registry = regAB, world = 0\<rparr> =
     (Return (VString TString ''ok'', None), \<lparr>registry = regAB, world = 1\<rparr>)"
    using Inject_result_normalised [of fn_ok "TFunc [] [TString, errorType] False"
        "\<lparr>registry = regAB, world = 0\<rparr>" "[]" demo_code
        "[Holds (VString TString ''ok''), Holds VNil]" 1 "VString TString ''ok''"]
    by (simp add: demo_defs run_defs)
  have 3: "Inject demo_code fn_fail \<lparr>registry = regAB, world = 0\<rparr> =
     (Return (VString TString ''partial'', Some (Wrap boom ''cannot inject'')),
      \<lparr>registry = regAB, world = 1\<rparr>)"
    using Inject_result_normalised [of fn_fail "TFunc [] [TString, errorType] False"
        "\<lparr>registry = regAB, world = 0\<rparr>" "[]" demo_code
        "[Holds (VString TString ''partial''), Holds boom]" 1 "VString TString ''partial''" boom]
    by (simp add: demo_defs run_defs)
  from 1 2 3 show ?thesis by (simp add: boom_def)
qed

text \<open>
  C5. \<open>Inject\<close> validates as the specification orders it (\<open>validate_spec\<close>): when a check
  fails, \<open>Inject\<close> returns the nil result with that check's error and the state unchanged,
  whatever the registry and the code table are (nothing is resolved or called); when all
  checks pass, an error that \<open>Inject\<close> returns is never a validation error: it is a
  missing dependency or the wrapped error of the call.
\<close>

theorem Inject_validation_order:
  "(validate_spec fn = Some e \<longrightarrow> Inject code fn s = (Return (VNil, Some e), s)) \<and>
   (validate_spec fn = None \<longrightarrow>
      (\<forall>r e' s'. Inject code fn s = (Return (r, Some e'), s') \<longrightarrow>
         (\<exists>t. e' = MissingDependency t fn) \<or> (\<exists>c. e' = Wrap c ''cannot inject'')))"
proof (intro conjI impI allI)
  assume "validate_spec fn = Some e"
  then show "Inject code fn s = (Return (VNil, Some e), s)" by (rule validate_spec_Some)
next
  fix r e' s'
  assume v: "validate_spec fn = None" and i: "Inject code fn s = (Return (r, Some e'), s')"
  from validate_spec_None [OF v] obtain ty where t: "TypeOf fn = Some ty" "kindOf ty = KFunc"
    "NumOut ty = 1 \<or> (NumOut ty = 2 \<and> Out ty 1 = errorType)" by blast
  note eq = Inject_after_validation [OF t, of code s]
  show "(\<exists>t. e' = MissingDependency t fn) \<or> (\<exists>c. e' = Wrap c ''cannot inject'')"
  proof (cases "build_args (registry s) fn (params ty)")
    case (Inl x)
    with eq i have "x = e'" by simp
    with build_args_Inl [OF Inl] show ?thesis by blast
  next
    case (Inr args)
    obtain out w' where c: "Call code (ValueOf fn) args (world s) = (out, w')"
      by (cases "Call code (ValueOf fn) args (world s)")
    show ?thesis
    proof (cases out)
      case (Return results)
      with eq i Inr c have "extract_results results = Return (r, Some e')" by simp
      from extract_results_error [OF this] show ?thesis by blast
    next
      case (Panic p)
      with eq i Inr c show ?thesis by simp
    qed
  qed
qed

theorem Inject_validation_order_witness:
  "Inject demo_code (VInt typeA 0) \<lparr>registry = regAB, world = 0\<rparr> =
     (Return (VNil, Some (NotCallable KInt (VInt typeA 0))), \<lparr>registry = regAB, world = 0\<rparr>) \<and>
   Inject demo_code VNil \<lparr>registry = regAB, world = 0\<rparr> =
     (Return (VNil, Some (NotCallable KInvalid VNil)), \<lparr>registry = regAB, world = 0\<rparr>) \<and>
   Inject demo_code (VFunc (TFunc [typeA] [] False) (Some 5)) \<lparr>registry = regAB, world = 0\<rparr> =
     (Return (VNil, Some (NoReturnValue (VFunc (TFunc [typeA] [] False) (Some 5)))),
      \<lparr>registry = regAB, world = 0\<rparr>) \<and>
   Inject demo_code (VFunc (TFunc [] [TString, TInt, errorType] False) (Some 5))
       \<lparr>registry = regAB, world = 0\<rparr> =
     (Return (VNil, Some (TooManyReturns (VFunc (TFunc [] [TString, TInt, errorType] False) (Some 5)))),
      \<lparr>registry = regAB, world = 0\<rparr>) \<and>
   Inject demo_code (VFunc (TFunc [TBool] [TString, TInt] False) (Some 5))
       \<lparr>registry = regAB, world = 0\<rparr> =
     (Return (VNil, Some (InvalidSecondReturn TInt (VFunc (TFunc [TBool] [TString, TInt] False) (Some 5)))),
      \<lparr>registry = regAB, world = 0\<rparr>) \<and>
   validate_spec fn_ab = None"
proof -
  note v = Inject_validation_order [where code = demo_code and s = "\<lparr>registry = regAB, world = 0\<rparr>",
      THEN conjunct1, rule_format]
  have 1: "Inject demo_code (VInt typeA 0) \<lparr>registry = regAB, world = 0\<rparr> =
     (Return (VNil, Some (NotCallable KInt (VInt typeA 0))), \<lparr>registry = regAB, world = 0\<rparr>)"
    by (rule v) (simp add: validate_spec_def typeA_def)
  have 2: "Inject demo_code VNil \<lparr>registry = regAB, world = 0\<rparr> =
     (Return (VNil, Some (NotCallable KInvalid VNil)), \<lparr>registry = regAB, world = 0\<rparr>)"
    by (rule v) (simp add: validate_spec_def)
  have 3: "Inject demo_code (VFunc (TFunc [typeA] [] False) (Some 5)) \<lparr>registry = regAB, world = 0\<rparr> =
     (Return (VNil, Some (NoReturnValue (VFunc (TFunc [typeA] [] False) (Some 5)))),
      \<lparr>registry = regAB, world = 0\<rparr>)"
    by (rule v) (simp add: validate_spec_def NumOut_def)
  have 4: "Inject demo_code (VFunc (TFunc [] [TString, TInt, errorType] False) (Some 5))
       \<lparr>registry = regAB, world = 0\<rparr> =
     (Return (VNil, Some (TooManyReturns (VFunc (TFunc [] [TString, TInt, errorType] False) (Some 5)))),
      \<lparr>registry = regAB, world = 0\<rparr>)"
    by (rule v) (simp add: validate_spec_def NumOut_def)
  have 5: "Inject demo_code (VFunc (TFunc [TBool] [TString, TInt] False) (Some 5))
       \<lparr>registry = regAB, world = 0\<rparr> =
     (Return (VNil, Some (InvalidSecondReturn TInt (VFunc (TFunc [TBool] [TString, TInt] False) (Some 5)))),
      \<lparr>registry = regAB, world = 0\<rparr>)"
    by (rule v) (simp add: validate_spec_def NumOut_def Out_def errorType_def)
  have 6: "validate_spec fn_ab = None"
    by (simp add: validate_spec_def fn_ab_def NumOut_def)
  from 1 2 3 4 5 6 show ?thesis by (intro conjI)
qed

text \<open>
  C6. Resolution is by type identity only. A permutation of the values given to \<open>New\<close>
  yields the same registry; the argument built for a parameter is the value registered
  under that parameter's type, at the parameter's position; and a parameter list that is
  a rearrangement of another gets the argument list rearranged in the same way.
\<close>

theorem resolution_by_type_only:
  "(New args = Return (Some n, None) \<and> mset args' = mset args \<longrightarrow>
      New args' = Return (Some n, None)) \<and>
   (build_args n fn ts = Inr as \<longrightarrow>
      length as = length ts \<and> (\<forall>i<length ts. n (Some (ts ! i)) = Some (as ! i)) \<and>
      (\<forall>p g. set p \<subseteq> {..<length ts} \<longrightarrow>
         build_args n g (map ((!) ts) p) = Inr (map ((!) as) p)))"
proof (rule conjI)
  show "New args = Return (Some n, None) \<and> mset args' = mset args \<longrightarrow>
      New args' = Return (Some n, None)"
    using New_perm by blast
next
  show "build_args n fn ts = Inr as \<longrightarrow>
      length as = length ts \<and> (\<forall>i<length ts. n (Some (ts ! i)) = Some (as ! i)) \<and>
      (\<forall>p g. set p \<subseteq> {..<length ts} \<longrightarrow>
         build_args n g (map ((!) ts) p) = Inr (map ((!) as) p))"
  proof (rule impI)
    assume b: "build_args n fn ts = Inr as"
    have l: "length as = length ts" using b by (rule build_args_nth(1))
    have nth: "\<forall>i<length ts. n (Some (ts ! i)) = Some (as ! i)"
      using b by (rule build_args_nth(2))
    have perm: "\<forall>p g. set p \<subseteq> {..<length ts} \<longrightarrow>
         build_args n g (map ((!) ts) p) = Inr (map ((!) as) p)"
    proof (intro allI impI)
      fix p g
      assume p: "set p \<subseteq> {..<length ts}"
      have "map Some (map ((!) as) p) = map (\<lambda>t. n (Some t)) (map ((!) ts) p)"
        using p nth by (auto simp: subset_iff)
      then show "build_args n g (map ((!) ts) p) = Inr (map ((!) as) p)"
        by (rule build_args_resolved)
    qed
    from l nth perm show "length as = length ts \<and>
      (\<forall>i<length ts. n (Some (ts ! i)) = Some (as ! i)) \<and>
      (\<forall>p g. set p \<subseteq> {..<length ts} \<longrightarrow>
         build_args n g (map ((!) ts) p) = Inr (map ((!) as) p))"
      by (intro conjI)
  qed
qed

theorem resolution_by_type_only_witness:
  "New [VInt typeB 1, VInt typeA 0] = Return (Some regAB, None) \<and>
   build_args regAB fn_ab [typeA, typeB] = Inr [Holds (VInt typeA 0), Holds (VInt typeB 1)] \<and>
   build_args regAB fn_ba [typeB, typeA] = Inr [Holds (VInt typeB 1), Holds (VInt typeA 0)] \<and>
   Inject demo_code fn_ab \<lparr>registry = regAB, world = 0\<rparr> =
     (Return (VInt TInt (- 1), None), \<lparr>registry = regAB, world = 1\<rparr>) \<and>
   Inject demo_code fn_ba \<lparr>registry = regAB, world = 0\<rparr> =
     (Return (VInt TInt (- 1), None), \<lparr>registry = regAB, world = 1\<rparr>)"
proof -
  note t = resolution_by_type_only [of "[VInt typeA 0, VInt typeB 1]" regAB
      "[VInt typeB 1, VInt typeA 0]" fn_ab "[typeA, typeB]"
      "[Holds (VInt typeA 0), Holds (VInt typeB 1)]"]
  have b: "build_args regAB fn_ab [typeA, typeB] = Inr [Holds (VInt typeA 0), Holds (VInt typeB 1)]"
    by (simp add: regAB_def typeA_def typeB_def)
  have 1: "New [VInt typeB 1, VInt typeA 0] = Return (Some regAB, None)"
    using t New_regAB by (simp add: add.commute)
  from t b have "\<forall>p g. set p \<subseteq> {..<length [typeA, typeB]} \<longrightarrow>
      build_args regAB g (map ((!) [typeA, typeB]) p) =
        Inr (map ((!) [Holds (VInt typeA 0), Holds (VInt typeB 1)]) p)"
    by blast
  then have "set [1, 0] \<subseteq> {..<length [typeA, typeB]} \<longrightarrow>
      build_args regAB fn_ba (map ((!) [typeA, typeB]) [1, 0]) =
        Inr (map ((!) [Holds (VInt typeA 0), Holds (VInt typeB 1)]) [1, 0])"
    by blast
  then have 2: "build_args regAB fn_ba [typeB, typeA] = Inr [Holds (VInt typeB 1), Holds (VInt typeA 0)]"
    by simp
  have 3: "Inject demo_code fn_ab \<lparr>registry = regAB, world = 0\<rparr> =
     (Return (VInt TInt (- 1), None), \<lparr>registry = regAB, world = 1\<rparr>)"
    by (simp add: demo_defs run_defs)
  have 4: "Inject demo_code fn_ba \<lparr>registry = regAB, world = 0\<rparr> =
     (Return (VInt TInt (- 1), None), \<lparr>registry = regAB, world = 1\<rparr>)"
    by (simp add: demo_defs run_defs)
  from 1 b 2 3 4 show ?thesis by (intro conjI)
qed

text \<open>
  C7. \<open>New\<close> and \<open>Inject\<close> report every failure as a returned error and never panic
  themselves. The code panics in \<open>New\<close> on two nil interface values (in the branch that
  builds the duplicate error), and in \<open>Inject\<close> on the nil function of a valid function
  type, which passes every check and reaches \<open>reflect.Value.Call\<close>.
\<close>

theorem New_nil_twice_panics:
  "New [VNil, VNil] = Panic ZeroValueInterface \<and>
   fst (Inject code (VFunc (TFunc [] [TString] False) None) s) = Panic CallNilFunc"
  by (simp add: New_def Inject_def Call_def NumOut_def Let_def)

text \<open>
  C8. \<open>Inject\<close> never modifies the registry: whatever the argument, and whether the call
  succeeds, fails or panics, the state it returns has the registry it was given, so a
  later resolution of any parameter list gives what it gave before.
\<close>

theorem Inject_registry_unchanged:
  "registry (snd (Inject code fn s)) = registry s \<and>
   build_args (registry (snd (Inject code fn s))) g ts = build_args (registry s) g ts"
proof -
  have "registry (snd (Inject code fn s)) = registry s"
    by (simp add: Inject_def Let_def split: option.splits sum.splits prod.splits outcome.splits)
  then show ?thesis by simp
qed

theorem Inject_registry_unchanged_witness:
  "registry (snd (Inject demo_code fn_fail \<lparr>registry = regAB, world = 0\<rparr>)) = regAB \<and>
   fst (Inject demo_code fn_fail \<lparr>registry = regAB, world = 0\<rparr>) =
     Return (VString TString ''partial'', Some (Wrap boom ''cannot inject''))"
proof -
  have "registry (snd (Inject demo_code fn_fail \<lparr>registry = regAB, world = 0\<rparr>)) = regAB"
    using Inject_registry_unchanged [of demo_code fn_fail "\<lparr>registry = regAB, world = 0\<rparr>"]
    by simp
  moreover have "fst (Inject demo_code fn_fail \<lparr>registry = regAB, world = 0\<rparr>) =
     Return (VString TString ''partial'', Some (Wrap boom ''cannot inject''))"
    by (simp add: demo_defs run_defs)
  ultimately show ?thesis by simp
qed

text \<open>
  C9. The second return type is compared with the \<open>error\<close> interface type by identity:
  a function of return arity 2 whose second return type is any other type, also one that
  implements \<open>error\<close>, is refused with the error naming that type, and the state is
  unchanged (the function is not called).
\<close>

theorem Inject_second_return_exact:
  assumes "TypeOf fn = Some typ" "kindOf typ = KFunc" "NumOut typ = 2" "Out typ 1 \<noteq> errorType"
  shows "Inject code fn s = (Return (VNil, Some (InvalidSecondReturn (Out typ 1) fn)), s)"
  using assms by (simp add: Inject_def Kind_ValueOf)

theorem Inject_second_return_exact_witness:
  "implements typeMyErr errorType \<and> typeMyErr \<noteq> errorType \<and>
   Inject demo_code (VFunc (TFunc [] [TString, typeMyErr] False) (Some 4))
     \<lparr>registry = regAB, world = 0\<rparr> =
   (Return (VNil, Some (InvalidSecondReturn typeMyErr
      (VFunc (TFunc [] [TString, typeMyErr] False) (Some 4)))),
    \<lparr>registry = regAB, world = 0\<rparr>)"
proof -
  have "implements typeMyErr errorType" "typeMyErr \<noteq> errorType"
    by (simp_all add: implements_def typeMyErr_def errorType_def)
  moreover have "Inject demo_code (VFunc (TFunc [] [TString, typeMyErr] False) (Some 4))
     \<lparr>registry = regAB, world = 0\<rparr> =
   (Return (VNil, Some (InvalidSecondReturn typeMyErr
      (VFunc (TFunc [] [TString, typeMyErr] False) (Some 4)))),
    \<lparr>registry = regAB, world = 0\<rparr>)"
    using Inject_second_return_exact [of "VFunc (TFunc [] [TString, typeMyErr] False) (Some 4)"
        "TFunc [] [TString, typeMyErr] False" demo_code "\<lparr>registry = regAB, world = 0\<rparr>"]
    by (simp add: NumOut_def Out_def typeMyErr_def errorType_def)
  ultimately show ?thesis by simp
qed



end
